theory Spec2Isabelle
  imports
    Main
    "HOL-Library.AList"
    "HOL-Library.Char_ord"
    "HOL-Library.List_Lexorder"
    "HOL-Library.Multiset"
    "HOL-Library.Monad_Syntax"
begin

section \<open>Strings and the library calls of main.go\<close>

text \<open>
  A Go string is a byte sequence: \<^typ>\<open>string\<close>. Go compares strings byte by byte, which is
  the lexicographic order of \<^typ>\<open>char list\<close> over the byte order of \<^typ>\<open>char\<close>; that is the
  order \<open>sort.Strings\<close> sorts by, and \<^const>\<open>sort\<close> is its model.
\<close>

abbreviation newline :: char where
  "newline \<equiv> CHR ''\<newline>''"

text \<open>\<open>strings.HasPrefix(s, p)\<close>.\<close>

fun strings_HasPrefix :: "string \<Rightarrow> string \<Rightarrow> bool" where
  "strings_HasPrefix s [] = True"
| "strings_HasPrefix [] (p # ps) = False"
| "strings_HasPrefix (c # cs) (p # ps) = (c = p \<and> strings_HasPrefix cs ps)"

text \<open>\<open>strings.Contains(s, sub)\<close>: \<open>sub\<close> starts at some position of \<open>s\<close>.\<close>

fun strings_Contains :: "string \<Rightarrow> string \<Rightarrow> bool" where
  "strings_Contains [] sub = strings_HasPrefix [] sub"
| "strings_Contains (c # cs) sub = (strings_HasPrefix (c # cs) sub \<or> strings_Contains cs sub)"

text \<open>\<open>strings.Split(s, "\n")\<close>: the pieces between newlines, always at least one piece.\<close>

fun strings_Split_lines :: "string \<Rightarrow> string list" where
  "strings_Split_lines [] = [[]]"
| "strings_Split_lines (c # cs) =
     (if c = newline then [] # strings_Split_lines cs
      else (case strings_Split_lines cs of
              [] \<Rightarrow> [[c]]
            | l # ls \<Rightarrow> (c # l) # ls))"

text \<open>\<open>strings.Join(elems, sep)\<close>.\<close>

fun strings_Join :: "string list \<Rightarrow> string \<Rightarrow> string" where
  "strings_Join [] sep = []"
| "strings_Join [l] sep = l"
| "strings_Join (l # l' # ls) sep = l @ sep @ strings_Join (l' # ls) sep"

text \<open>The helper \<open>contains(slice, item)\<close> at the end of main.go.\<close>

fun contains :: "string list \<Rightarrow> string \<Rightarrow> bool" where
  "contains [] item = False"
| "contains (s # slice) item = (if s = item then True else contains slice item)"

text \<open>\<open>filepath.Join(dir, name)\<close> for a non-empty directory and a plain file name. The
  cleaning of the directory part (\<open>..\<close>, doubled separators) is not modelled; it never
  changes the file name, the last element.\<close>

definition filepath_Join :: "string \<Rightarrow> string \<Rightarrow> string" where
  "filepath_Join dir name = dir @ ''/'' @ name"

text \<open>\<open>%v\<close> of a \<open>[]string\<close>: the elements between brackets, separated by spaces.\<close>

definition fmt_strings :: "string list \<Rightarrow> string" where
  "fmt_strings args = ''['' @ strings_Join args '' '' @ '']''"

section \<open>The four regular expressions of processPlansFile\<close>

text \<open>
  Each pattern is a sequence of literals, single character classes and one greedy
  \<open>+\<close> over a class. In all four, what follows the \<open>+\<close> is either the end of the pattern
  or a character outside the class, so the greedy run is the maximal one and the match
  at a given start position is unique. \<open>FindStringSubmatch\<close> returns the leftmost match:
  \<open>find_leftmost\<close> tries every start position from the left.
\<close>

definition is_lower :: "char \<Rightarrow> bool" where
  "is_lower c = (CHR ''a'' \<le> c \<and> c \<le> CHR ''z'')"

definition is_digit :: "char \<Rightarrow> bool" where
  "is_digit c = (CHR ''0'' \<le> c \<and> c \<le> CHR ''9'')"

definition not_slash :: "char \<Rightarrow> bool" where
  "not_slash c = (c \<noteq> CHR ''/'')"

text \<open>A literal: the rest of the input after it.\<close>

definition re_lit :: "string \<Rightarrow> string \<Rightarrow> string option" where
  "re_lit l s = (if strings_HasPrefix s l then Some (drop (length l) s) else None)"

text \<open>One character of a class: the character and the rest.\<close>

fun re_one :: "(char \<Rightarrow> bool) \<Rightarrow> string \<Rightarrow> (char \<times> string) option" where
  "re_one p [] = None"
| "re_one p (c # cs) = (if p c then Some (c, cs) else None)"

text \<open>\<open>[class]+\<close>, greedy: the maximal non-empty run and the rest.\<close>

definition re_plus :: "(char \<Rightarrow> bool) \<Rightarrow> string \<Rightarrow> (string \<times> string) option" where
  "re_plus p s =
     (if takeWhile p s = [] then None else Some (takeWhile p s, dropWhile p s))"

fun find_leftmost :: "(string \<Rightarrow> 'a option) \<Rightarrow> string \<Rightarrow> 'a option" where
  "find_leftmost m [] = m []"
| "find_leftmost m (c # cs) =
     (case m (c # cs) of Some r \<Rightarrow> Some r | None \<Rightarrow> find_leftmost m cs)"

text \<open>\<open>/organizations/([^/]+)/\<close> at the start of the input: the captured group.\<close>

definition org_at :: "string \<Rightarrow> string option" where
  "org_at s =
     do {
       r1 \<leftarrow> re_lit ''/organizations/'' s;
       (cap, r2) \<leftarrow> re_plus not_slash r1;
       _ \<leftarrow> re_lit ''/'' r2;
       Some cap
     }"

text \<open>\<open>(govcloud-[^/]+)\<close> at the start of the input.\<close>

definition govcloud_at :: "string \<Rightarrow> string option" where
  "govcloud_at s =
     do {
       r1 \<leftarrow> re_lit ''govcloud-'' s;
       (run, _) \<leftarrow> re_plus not_slash r1;
       Some (''govcloud-'' @ run)
     }"

text \<open>\<open>/([a-z]{2}-[a-z]+-[0-9])/\<close> at the start of the input.\<close>

definition region_at :: "string \<Rightarrow> string option" where
  "region_at s =
     do {
       r0 \<leftarrow> re_lit ''/'' s;
       (a, r1) \<leftarrow> re_one is_lower r0;
       (b, r2) \<leftarrow> re_one is_lower r1;
       r3 \<leftarrow> re_lit ''-'' r2;
       (run, r4) \<leftarrow> re_plus is_lower r3;
       r5 \<leftarrow> re_lit ''-'' r4;
       (d, r6) \<leftarrow> re_one is_digit r5;
       _ \<leftarrow> re_lit ''/'' r6;
       Some ([a, b] @ ''-'' @ run @ ''-'' @ [d])
     }"

text \<open>\<open>(us-gov-[a-z]+-[0-9])\<close> at the start of the input.\<close>

definition gov_region_at :: "string \<Rightarrow> string option" where
  "gov_region_at s =
     do {
       r1 \<leftarrow> re_lit ''us-gov-'' s;
       (run, r2) \<leftarrow> re_plus is_lower r1;
       r3 \<leftarrow> re_lit ''-'' r2;
       (d, _) \<leftarrow> re_one is_digit r3;
       Some (''us-gov-'' @ run @ ''-'' @ [d])
     }"

text \<open>\<open>envRegex.FindStringSubmatch(line)\<close> and \<open>regionRegex.FindStringSubmatch(line)\<close>,
  reduced to the first group; \<open>None\<close> when the line has no match.\<close>

definition envRegex :: "bool \<Rightarrow> string \<Rightarrow> string option" where
  "envRegex isGovcloud line =
     (if isGovcloud then find_leftmost govcloud_at line else find_leftmost org_at line)"

definition regionRegex :: "bool \<Rightarrow> string \<Rightarrow> string option" where
  "regionRegex isGovcloud line =
     (if isGovcloud then find_leftmost gov_region_at line else find_leftmost region_at line)"

section \<open>The data of main.go\<close>

record PlanGenerator =
  ModuleName :: string
  OutputDir :: string
  Verbose :: bool

text \<open>\<open>Plans\<close> is a Go map from region to plan content, kept as an association list with
  one entry for each key; \<open>environments\<close>, the map from name to \<open>*Environment\<close>, likewise.\<close>

record Environment =
  Name :: string
  Regions :: "string list"
  Plans :: "(string \<times> string) list"

type_synonym environments = "(string \<times> Environment) list"

text \<open>The local variables of the scanning loop of processPlansFile.\<close>

record scanner =
  currentEnv :: string
  currentRegion :: string
  planLines :: "string list"
  inPlanSection :: bool
  envs :: environments

definition scanner_init :: scanner where
  "scanner_init =
     \<lparr>currentEnv = [], currentRegion = [], planLines = [], inPlanSection = False, envs = []\<rparr>"

section \<open>processPlansFile: the scanning loop\<close>

definition header_phrase :: string where
  "header_phrase = ''Terraform will perform the following actions:''"

text \<open>The test that ends a plan section.\<close>

definition is_plan_summary :: "string \<Rightarrow> bool" where
  "is_plan_summary line =
     (strings_Contains line ''Plan:'' \<and>
      (strings_Contains line ''to add'' \<or> strings_Contains line ''to change'' \<or>
       strings_Contains line ''to destroy''))"

text \<open>The body of \<open>if currentEnv != "" && currentRegion != ""\<close>: the entry of the
  environment is created when it is missing, the region is appended to \<open>Regions\<close> unless it
  is there, and \<open>Plans[currentRegion]\<close> is assigned.\<close>

definition store_block :: "environments \<Rightarrow> string \<Rightarrow> string \<Rightarrow> string \<Rightarrow> environments" where
  "store_block es e r content =
     (let env0 = (case map_of es e of
                    None \<Rightarrow> \<lparr>Name = e, Regions = [], Plans = []\<rparr>
                  | Some env \<Rightarrow> env);
          env1 = (if contains (Regions env0) r then env0
                  else env0\<lparr>Regions := Regions env0 @ [r]\<rparr>);
          env2 = env1\<lparr>Plans := AList.update r content (Plans env1)\<rparr>
      in AList.update e env2 es)"

text \<open>The head of one iteration of \<open>for _, line := range lines\<close>: the two marker
  tests, each of which overwrites its variable when its pattern matches the line.\<close>

definition scan_markers :: "bool \<Rightarrow> scanner \<Rightarrow> string \<Rightarrow> scanner" where
  "scan_markers isGovcloud st line =
     (let st1 = (case envRegex isGovcloud line of
                   Some e \<Rightarrow> st\<lparr>currentEnv := e\<rparr>
                 | None \<Rightarrow> st)
      in case regionRegex isGovcloud line of
           Some r \<Rightarrow> st1\<lparr>currentRegion := r\<rparr>
         | None \<Rightarrow> st1)"

text \<open>One whole iteration. The header test comes first and ends the iteration
  (\<open>continue\<close>) whatever \<open>inPlanSection\<close> is.\<close>

definition scan_line :: "bool \<Rightarrow> scanner \<Rightarrow> string \<Rightarrow> scanner" where
  "scan_line isGovcloud st line =
     (let st2 = scan_markers isGovcloud st line
      in if strings_Contains line header_phrase
         then st2\<lparr>inPlanSection := True, planLines := [line]\<rparr>
         else if inPlanSection st2
         then (let st3 = st2\<lparr>planLines := planLines st2 @ [line]\<rparr>
               in if is_plan_summary line
                  then (if currentEnv st3 \<noteq> [] \<and> currentRegion st3 \<noteq> []
                        then st3\<lparr>envs := store_block (envs st3) (currentEnv st3)
                                            (currentRegion st3)
                                            (strings_Join (planLines st3) [newline])\<rparr>
                        else st3)
                       \<lparr>planLines := [], inPlanSection := False\<rparr>
                  else st3)
         else st2)"

definition scan_lines :: "bool \<Rightarrow> string list \<Rightarrow> scanner" where
  "scan_lines isGovcloud ls = foldl (scan_line isGovcloud) scanner_init ls"

section \<open>processPlansFile: rendering\<close>

definition env_header :: "string \<Rightarrow> string \<Rightarrow> string" where
  "env_header name module =
     ''## [environment: '' @ name @ ''] - [command: kitman tg plan_all] - [module: '' @
     module @ '']'' @ [newline, newline]"

definition region_block :: "string \<Rightarrow> string \<Rightarrow> string" where
  "region_block region planContent =
     ''<details>'' @ [newline] @ ''<summary>'' @ region @ ''</summary>'' @ [newline, newline] @
     ''```bash'' @ [newline] @ planContent @
     [newline] @ ''```'' @ [newline, newline] @ ''</details>'' @ [newline, newline]"

text \<open>The inner loop, over the sorted regions of one environment.\<close>

definition render_region :: "Environment \<Rightarrow> string \<Rightarrow> string" where
  "render_region env region =
     (case map_of (Plans env) region of
        Some planContent \<Rightarrow> if planContent \<noteq> [] then region_block region planContent else []
      | None \<Rightarrow> [])"

definition render_env :: "string \<Rightarrow> Environment \<Rightarrow> string" where
  "render_env module env =
     env_header (Name env) module @ concat (map (render_region env) (sort (Regions env)))"

text \<open>
  \<open>for name := range environments\<close> visits the keys of the map in an order Go leaves
  open. The order is the parameter \<open>range_order\<close>: a function from the keys (as the
  association list has them) to the order of the visit, see \<open>is_range_order\<close>. The names
  are then sorted and each is looked up; a name that \<open>range\<close> returned is a key, so the
  lookup finds its entry (lemma \<open>range_keys_present\<close>).
\<close>

definition is_range_order :: "(string list \<Rightarrow> string list) \<Rightarrow> bool" where
  "is_range_order range_order = (\<forall>ks. mset (range_order ks) = mset ks)"

definition envNames :: "(string list \<Rightarrow> string list) \<Rightarrow> environments \<Rightarrow> string list" where
  "envNames range_order es = sort (range_order (map fst es))"

definition render_report :: "(string list \<Rightarrow> string list) \<Rightarrow> string \<Rightarrow> environments \<Rightarrow> string" where
  "render_report range_order module es =
     concat (map (\<lambda>envName. case map_of es envName of
                                  Some env \<Rightarrow> render_env module env
                                | None \<Rightarrow> [])
                 (envNames range_order es))"

definition commercial_sentinel :: string where
  "commercial_sentinel = ''No commercial plans needed''"

definition govcloud_sentinel :: string where
  "govcloud_sentinel = ''No GovCloud plans needed''"

text \<open>
  processPlansFile reads the group's file from the output directory and appends to the
  open report file. \<open>fs\<close> is the file system (a missing file reads as an error),
  \<open>output\<close> is what the report file holds so far, and the result is what it holds after
  the call. The Go function returns \<open>nil\<close> on every path.
\<close>

definition processPlansFile ::
  "(string list \<Rightarrow> string list) \<Rightarrow> PlanGenerator \<Rightarrow> (string \<rightharpoonup> string) \<Rightarrow> string \<Rightarrow> bool \<Rightarrow>
   string \<Rightarrow> string" where
  "processPlansFile range_order pg fs filename isGovcloud output =
     (case fs (filepath_Join (OutputDir pg) filename) of
        None \<Rightarrow> output
      | Some content \<Rightarrow>
          if content = [] then output
          else if strings_Contains content commercial_sentinel \<or>
                  strings_Contains content govcloud_sentinel
          then output
          else output @ render_report range_order (ModuleName pg)
                          (envs (scan_lines isGovcloud (strings_Split_lines content))))"

section \<open>The operating system as main.go sees it\<close>

text \<open>
  A Go \<open>error\<close> is its message, \<open>None\<close> for \<open>nil\<close>.
  The host is what the program cannot control: what an external command returns for its
  argument vector (\<open>Inl\<close> the error of a non-zero exit, \<open>Inr\<close> its standard output), and
  whether a file can be created or written. The world is what the program changes: the
  files, and the trace of the commands it has started.
\<close>

type_synonym go_error = "string option"

record host =
  run_cmd :: "string list \<Rightarrow> string + string"
  create_err :: "string \<Rightarrow> go_error"
  stat_missing :: "string \<Rightarrow> bool"
  mkdir_err :: "string \<Rightarrow> go_error"
  now_stamp :: string
  affected :: "string list \<times> go_error"

record world =
  files :: "string \<rightharpoonup> string"
  calls :: "string list list"

text \<open>\<open>os.WriteFile(path, data, 0644)\<close>.\<close>

definition os_WriteFile :: "host \<Rightarrow> string \<Rightarrow> string \<Rightarrow> world \<Rightarrow> go_error \<times> world" where
  "os_WriteFile h path data w =
     (case create_err h path of
        Some e \<Rightarrow> (Some e, w)
      | None \<Rightarrow> (None, w\<lparr>files := (files w)(path \<mapsto> data)\<rparr>))"

text \<open>\<open>exec.Command(name, args...).Output()\<close>: the start of the command is recorded.\<close>

definition cmd_Output :: "host \<Rightarrow> string list \<Rightarrow> world \<Rightarrow> (string + string) \<times> world" where
  "cmd_Output h argv w = (run_cmd h argv, w\<lparr>calls := calls w @ [argv]\<rparr>)"

section \<open>Running the plans\<close>

definition runCommand ::
  "host \<Rightarrow> string \<Rightarrow> string list \<Rightarrow> string \<Rightarrow> world \<Rightarrow> go_error \<times> world" where
  "runCommand h command args outputFile w =
     (case cmd_Output h (command # args) w of
        (Inl err, w1) \<Rightarrow>
          (Some (''command failed: '' @ command @ '' '' @ fmt_strings args @ '' - '' @ err), w1)
      | (Inr output, w1) \<Rightarrow> os_WriteFile h outputFile output w1)"

definition commercial_args :: "PlanGenerator \<Rightarrow> string list" where
  "commercial_args pg = [''tg'', ''plan_all'', ''-m'', ModuleName pg, ''--local'', ''--pr'']"

definition govcloud_args :: "PlanGenerator \<Rightarrow> string list" where
  "govcloud_args pg =
     [''tg'', ''plan_all'', ''-m'', ModuleName pg,
      ''--organizations'', ''govcloud-staging|govcloud-production'',
      ''--regions'', ''us-gov-west-1'', ''--local'', ''--pr'']"

text \<open>The end of runPlanAll and of runTargetedPlans, after \<open>wg.Wait()\<close>.\<close>

definition join_errors :: "go_error \<Rightarrow> go_error \<Rightarrow> go_error" where
  "join_errors commercialErr govcloudErr =
     (case commercialErr of
        Some e \<Rightarrow> Some (''commercial plans failed: '' @ e)
      | None \<Rightarrow>
          (case govcloudErr of
             Some e \<Rightarrow> Some (''govcloud plans failed: '' @ e)
           | None \<Rightarrow> None))"

text \<open>
  The two goroutines write different files and share no variable; each is run to its
  end before \<open>wg.Wait()\<close> returns. They are modelled one after the other, the commercial
  group first.
\<close>

definition runPlanAll :: "host \<Rightarrow> PlanGenerator \<Rightarrow> world \<Rightarrow> go_error \<times> world" where
  "runPlanAll h pg w =
     (let (commercialErr, w1) =
            runCommand h ''kitman'' (commercial_args pg)
              (filepath_Join (OutputDir pg) ''commercial-plans.txt'') w;
          (govcloudErr, w2) =
            runCommand h ''kitman'' (govcloud_args pg)
              (filepath_Join (OutputDir pg) ''govcloud-plans.txt'') w1
      in (join_errors commercialErr govcloudErr, w2))"

text \<open>The partition loop at the head of runTargetedPlans, on the pair
  \<open>(commercialPlans, govcloudPlans)\<close>.\<close>

fun partition_plans :: "string list \<Rightarrow> string list \<times> string list \<Rightarrow> string list \<times> string list" where
  "partition_plans [] acc = acc"
| "partition_plans (plan # rest) (commercialPlans, govcloudPlans) =
     (if strings_Contains plan ''govcloud''
      then partition_plans rest (commercialPlans, govcloudPlans @ [plan])
      else partition_plans rest (commercialPlans @ [plan], govcloudPlans))"

definition plan_argv :: "string \<Rightarrow> string list" where
  "plan_argv planDir = [''kitman'', ''tg'', ''plan'', ''--wd'', planDir, ''--local'', ''--pr'']"

text \<open>The loop of runTargetedPlanGroup. \<open>written\<close> is what the open file holds; the
  results of \<open>file.Write\<close> and \<open>file.WriteString\<close> are not looked at by the code, and a
  write to the open file is taken to succeed.\<close>

fun plan_loop :: "host \<Rightarrow> string \<Rightarrow> string \<Rightarrow> string list \<Rightarrow> world \<Rightarrow> go_error \<times> world" where
  "plan_loop h outputPath written [] w = (None, w)"
| "plan_loop h outputPath written (planDir # rest) w =
     (case cmd_Output h (plan_argv planDir) w of
        (Inl err, w1) \<Rightarrow> (Some (''failed to run plan for '' @ planDir @ '': '' @ err), w1)
      | (Inr output, w1) \<Rightarrow>
          plan_loop h outputPath (written @ output @ [newline]) rest
            (w1\<lparr>files := (files w1)(outputPath \<mapsto> written @ output @ [newline])\<rparr>))"

definition runTargetedPlanGroup ::
  "host \<Rightarrow> PlanGenerator \<Rightarrow> string list \<Rightarrow> string \<Rightarrow> world \<Rightarrow> go_error \<times> world" where
  "runTargetedPlanGroup h pg plans outputFile w =
     (let outputPath = filepath_Join (OutputDir pg) outputFile
      in case create_err h outputPath of
           Some e \<Rightarrow> (Some e, w)
         | None \<Rightarrow> plan_loop h outputPath [] plans (w\<lparr>files := (files w)(outputPath \<mapsto> [])\<rparr>))"

definition runTargetedPlans ::
  "host \<Rightarrow> PlanGenerator \<Rightarrow> string list \<Rightarrow> world \<Rightarrow> go_error \<times> world" where
  "runTargetedPlans h pg affectedPlans w =
     (let (commercialPlans, govcloudPlans) = partition_plans affectedPlans ([], []);
          (commercialErr, w1) =
            (if commercialPlans \<noteq> []
             then runTargetedPlanGroup h pg commercialPlans ''commercial-plans.txt'' w
             else (None, snd (os_WriteFile h
                               (filepath_Join (OutputDir pg) ''commercial-plans.txt'')
                               (commercial_sentinel @ [newline]) w)));
          (govcloudErr, w2) =
            (if govcloudPlans \<noteq> []
             then runTargetedPlanGroup h pg govcloudPlans ''govcloud-plans.txt'' w1
             else (None, snd (os_WriteFile h
                               (filepath_Join (OutputDir pg) ''govcloud-plans.txt'')
                               (govcloud_sentinel @ [newline]) w1)))
      in (join_errors commercialErr govcloudErr, w2))"

section \<open>The report and the run\<close>






section \<open>The stored blocks as a sequence of records\<close>

text \<open>
  The loop stores a block with \<open>store_block\<close> each time a plan section ends with both
  markers set. The specification calls such a triple of environment, region and block
  text an action record. The definitions of this section are not code of main.go: they
  name the records the loop stores and what the stored grouping holds, so that
  properties of the records can be stated.
\<close>

text \<open>The grouping after storing a sequence of records, in order.\<close>

definition store_all :: "environments \<Rightarrow> (string \<times> string \<times> string) list \<Rightarrow> environments" where
  "store_all es recs = foldl (\<lambda>es (e, r, content). store_block es e r content) es recs"

text \<open>The block of the last record of the sequence with the given environment and
  region, if there is one.\<close>

fun last_block :: "(string \<times> string \<times> string) list \<Rightarrow> string \<Rightarrow> string \<Rightarrow> string option" where
  "last_block [] e r = None"
| "last_block ((e', r', content) # recs) e r =
     (case last_block recs e r of
        Some later \<Rightarrow> Some later
      | None \<Rightarrow> if e' = e \<and> r' = r then Some content else None)"

text \<open>What the grouping holds for an environment and a region: \<open>Plans[region]\<close> of the
  environment's entry, and the \<open>Regions\<close> of the entry.\<close>

definition plan_of :: "environments \<Rightarrow> string \<Rightarrow> string \<Rightarrow> string option" where
  "plan_of es e r = (case map_of es e of None \<Rightarrow> None | Some env \<Rightarrow> map_of (Plans env) r)"

definition regions_of :: "environments \<Rightarrow> string \<Rightarrow> string list" where
  "regions_of es e = (case map_of es e of None \<Rightarrow> [] | Some env \<Rightarrow> Regions env)"

text \<open>The records the loop stores while it reads the lines \<open>ls\<close> from the state \<open>st\<close>: one
  for each line that ends a plan section while both markers are set.\<close>

fun emitted_records :: "bool \<Rightarrow> scanner \<Rightarrow> string list \<Rightarrow> (string \<times> string \<times> string) list" where
  "emitted_records g st [] = []"
| "emitted_records g st (line # ls) =
     (if \<not> strings_Contains line header_phrase \<and> inPlanSection st \<and> is_plan_summary line \<and>
         currentEnv (scan_markers g st line) \<noteq> [] \<and> currentRegion (scan_markers g st line) \<noteq> []
      then [(currentEnv (scan_markers g st line), currentRegion (scan_markers g st line),
             strings_Join (planLines st @ [line]) [newline])]
      else []) @ emitted_records g (scan_line g st line) ls"

text \<open>What holds of every grouping the loop builds: one entry for each name, named by
  its key, with no region and no plan key twice.\<close>

definition wf_envs :: "environments \<Rightarrow> bool" where
  "wf_envs es =
     (distinct (map fst es) \<and>
      (\<forall>k env. map_of es k = Some env \<longrightarrow>
         Name env = k \<and> distinct (Regions env) \<and> distinct (map fst (Plans env))))"

text \<open>The report of a set of environment names, the regions of each and the block of
  each pair: the names in ascending order, and under each name its regions in ascending
  order.\<close>

definition report_of ::
  "string \<Rightarrow> string set \<Rightarrow> (string \<Rightarrow> string set) \<Rightarrow> (string \<Rightarrow> string \<Rightarrow> string option) \<Rightarrow> string" where
  "report_of module names regions plan =
     concat (map (\<lambda>name. env_header name module @
                    concat (map (\<lambda>region. case plan name region of
                                             Some planContent \<Rightarrow>
                                               if planContent \<noteq> [] then region_block region planContent
                                               else []
                                           | None \<Rightarrow> [])
                                (sorted_list_of_set (regions name))))
                 (sorted_list_of_set names))"

section \<open>Example inputs\<close>

text \<open>The concrete inputs at which the theorems below are instantiated.\<close>

definition example_pg :: PlanGenerator where
  "example_pg = \<lparr>ModuleName = ''s3'', OutputDir = ''out'', Verbose = False\<rparr>"

text \<open>A host on which every file can be written, with a given executor.\<close>

definition example_host :: "(string list \<Rightarrow> string + string) \<Rightarrow> host" where
  "example_host run =
     \<lparr>run_cmd = run, create_err = (\<lambda>_. None), stat_missing = (\<lambda>_. False),
      mkdir_err = (\<lambda>_. None), now_stamp = ''20250604-143022'', affected = ([], None)\<rparr>"


definition empty_world :: world where
  "empty_world = \<lparr>files = Map.empty, calls = []\<rparr>"

text \<open>An executor that always succeeds and prints its own command line.\<close>

definition run_echo :: "string list \<Rightarrow> string + string" where
  "run_echo argv = Inr (''ran '' @ strings_Join argv '' '' @ [newline])"

text \<open>An executor that fails on the target \<open>b\<close>.\<close>

definition run_b_fails :: "string list \<Rightarrow> string + string" where
  "run_b_fails argv =
     (if argv = plan_argv ''b'' then Inl ''exit status 1'' else run_echo argv)"

text \<open>An executor that fails on every command, with a different exit status for the
  commands that name govcloud.\<close>

definition run_both_fail :: "string list \<Rightarrow> string + string" where
  "run_both_fail argv =
     (if strings_Contains (concat argv) ''govcloud'' then Inl ''exit status 2''
      else Inl ''exit status 1'')"




text \<open>Lines and states for the scanning loop.\<close>

definition plan_summary_line :: string where
  "plan_summary_line = ''Plan: 1 to add, 0 to change, 0 to destroy.''"

definition inside_state :: scanner where
  "inside_state =
     \<lparr>currentEnv = ''staging'', currentRegion = ''eu-west-1'',
      planLines = [header_phrase, ''  + first''], inPlanSection = True, envs = []\<rparr>"

definition nested_header_lines :: "string list" where
  "nested_header_lines =
     [''/aws/organizations/staging/eu-west-1/s3'',
      header_phrase, ''  + first'',
      header_phrase, ''  + second'',
      plan_summary_line]"

definition sentinel_in_plan :: string where
  "sentinel_in_plan =
     ''/aws/organizations/staging/eu-west-1/s3'' @ [newline] @
     header_phrase @ [newline] @
     ''  + note = No GovCloud plans needed'' @ [newline] @
     plan_summary_line @ [newline]"



section \<open>Facts about the string functions\<close>

lemma strings_HasPrefix_iff: "strings_HasPrefix s p \<longleftrightarrow> (\<exists>b. s = p @ b)"
  by (induction s p rule: strings_HasPrefix.induct) auto

lemma strings_Contains_iff: "strings_Contains s sub \<longleftrightarrow> (\<exists>a b. s = a @ sub @ b)"
proof (induction s)
  case Nil
  then show ?case by (auto simp: strings_HasPrefix_iff)
next
  case (Cons c cs)
  show ?case
  proof
    assume "strings_Contains (c # cs) sub"
    then consider "strings_HasPrefix (c # cs) sub" | "strings_Contains cs sub" by auto
    then show "\<exists>a b. c # cs = a @ sub @ b"
    proof cases
      case 1
      then obtain b where "c # cs = sub @ b" by (auto simp: strings_HasPrefix_iff)
      then have "c # cs = [] @ sub @ b" by simp
      then show ?thesis by blast
    next
      case 2
      then obtain a b where "cs = a @ sub @ b" using Cons.IH by auto
      then have "c # cs = (c # a) @ sub @ b" by simp
      then show ?thesis by blast
    qed
  next
    assume "\<exists>a b. c # cs = a @ sub @ b"
    then obtain a b where ab: "c # cs = a @ sub @ b" by blast
    show "strings_Contains (c # cs) sub"
    proof (cases a)
      case Nil
      then have "strings_HasPrefix (c # cs) sub" using ab by (auto simp: strings_HasPrefix_iff)
      then show ?thesis by simp
    next
      case (Cons a0 as)
      then have "cs = as @ sub @ b" using ab by simp
      then have "strings_Contains cs sub" using Cons.IH by blast
      then show ?thesis by simp
    qed
  qed
qed

lemma filepath_Join_inject [simp]: "filepath_Join dir a = filepath_Join dir b \<longleftrightarrow> a = b"
  by (simp add: filepath_Join_def)

lemma world_updates:
  "(w::world)\<lparr>calls := c, files := f\<rparr> = \<lparr>files = f, calls = c\<rparr>"
  "(w::world)\<lparr>files := f\<rparr> = \<lparr>files = f, calls = calls w\<rparr>"
  "(w::world)\<lparr>calls := c\<rparr> = \<lparr>files = files w, calls = c\<rparr>"
  by (cases w; simp)+

section \<open>The partition of the targets\<close>

lemma partition_plans_filter:
  "partition_plans ps (c, g) =
     (c @ filter (\<lambda>p. \<not> strings_Contains p ''govcloud'') ps,
      g @ filter (\<lambda>p. strings_Contains p ''govcloud'') ps)"
  by (induction ps arbitrary: c g) simp_all

text \<open>
  Claim C5. The loop at the head of runTargetedPlans splits the targets into the two
  lists exactly: together they hold every target as often as the input does, no target
  is in both, a target is in \<open>govcloudPlans\<close> iff its name contains \<open>govcloud\<close>, and each
  list is the input filtered, so that it keeps the order of the input.
\<close>

theorem partition_plans_correct:
  "(case partition_plans plans ([], []) of
      (commercialPlans, govcloudPlans) \<Rightarrow>
        mset commercialPlans + mset govcloudPlans = mset plans \<and>
        set commercialPlans \<inter> set govcloudPlans = {} \<and>
        (\<forall>t. t \<in> set govcloudPlans \<longleftrightarrow> (t \<in> set plans \<and> strings_Contains t ''govcloud'')) \<and>
        (\<forall>t. t \<in> set commercialPlans \<longleftrightarrow> (t \<in> set plans \<and> \<not> strings_Contains t ''govcloud'')) \<and>
        govcloudPlans = filter (\<lambda>t. strings_Contains t ''govcloud'') plans \<and>
        commercialPlans = filter (\<lambda>t. \<not> strings_Contains t ''govcloud'') plans)"
proof -
  have "mset (filter (\<lambda>p. \<not> strings_Contains p ''govcloud'') plans) +
        mset (filter (\<lambda>p. strings_Contains p ''govcloud'') plans) = mset plans"
    by (induction plans) simp_all
  then show ?thesis
    by (auto simp: partition_plans_filter)
qed

theorem partition_plans_correct_witness:
  "partition_plans [''aws/organizations/staging/eu-west-1/s3'',
                    ''aws/organizations/govcloud-staging/us-gov-west-1/s3'',
                    ''aws/organizations/production/us-east-1/s3''] ([], []) =
     ([''aws/organizations/staging/eu-west-1/s3'', ''aws/organizations/production/us-east-1/s3''],
      [''aws/organizations/govcloud-staging/us-gov-west-1/s3''])"
  using partition_plans_correct
    [of "[''aws/organizations/staging/eu-west-1/s3'',
          ''aws/organizations/govcloud-staging/us-gov-west-1/s3'',
          ''aws/organizations/production/us-east-1/s3'']"]
  by (simp split: prod.splits)

section \<open>One group in targeted mode\<close>

lemma plan_loop_all_ok:
  "map (\<lambda>p. run_cmd h (plan_argv p)) plans = map Inr outs \<Longrightarrow>
   files w path = Some written \<Longrightarrow>
   plan_loop h path written plans w =
     (None, \<lparr>files = (files w)(path \<mapsto> written @ concat (map (\<lambda>out. out @ [newline]) outs)),
             calls = calls w @ map plan_argv plans\<rparr>)"
proof (induction plans arbitrary: outs written w)
  case Nil
  then show ?case by (simp add: map_upd_triv)
next
  case (Cons p ps)
  then obtain out outs' where outs: "outs = out # outs'"
    and p: "run_cmd h (plan_argv p) = Inr out"
    and ps: "map (\<lambda>p. run_cmd h (plan_argv p)) ps = map Inr outs'"
    by (cases outs) auto
  define w1 where "w1 = \<lparr>files = (files w)(path \<mapsto> written @ out @ [newline]),
                          calls = calls w @ [plan_argv p]\<rparr>"
  have f1: "files w1 path = Some (written @ out @ [newline])"
    by (simp add: w1_def)
  have step: "plan_loop h path written (p # ps) w =
              plan_loop h path (written @ out @ [newline]) ps w1"
    by (simp add: cmd_Output_def p w1_def world_updates)
  show ?case
    unfolding step Cons.IH[OF ps f1]
    by (auto simp: w1_def outs)
qed

lemma plan_loop_first_failure:
  assumes "run_cmd h (plan_argv t) = Inl err"
  shows "map (\<lambda>p. run_cmd h (plan_argv p)) pre = map Inr outs \<Longrightarrow>
   files w path = Some written \<Longrightarrow>
   plan_loop h path written (pre @ t # post) w =
     (Some (''failed to run plan for '' @ t @ '': '' @ err),
      \<lparr>files = (files w)(path \<mapsto> written @ concat (map (\<lambda>out. out @ [newline]) outs)),
        calls = calls w @ map plan_argv (pre @ [t])\<rparr>)"
proof (induction pre arbitrary: outs written w)
  case Nil
  then show ?case by (simp add: cmd_Output_def assms map_upd_triv world_updates)
next
  case (Cons p ps)
  then obtain out outs' where outs: "outs = out # outs'"
    and p: "run_cmd h (plan_argv p) = Inr out"
    and ps: "map (\<lambda>p. run_cmd h (plan_argv p)) ps = map Inr outs'"
    by (cases outs) auto
  define w1 where "w1 = \<lparr>files = (files w)(path \<mapsto> written @ out @ [newline]),
                          calls = calls w @ [plan_argv p]\<rparr>"
  have f1: "files w1 path = Some (written @ out @ [newline])"
    by (simp add: w1_def)
  have step: "plan_loop h path written ((p # ps) @ t # post) w =
              plan_loop h path (written @ out @ [newline]) (ps @ t # post) w1"
    by (simp add: cmd_Output_def p w1_def world_updates)
  show ?case
    unfolding step Cons.IH[OF ps f1]
    by (auto simp: w1_def outs)
qed

text \<open>
  Claim C8. runTargetedPlanGroup on the targets \<open>pre @ t # post\<close>, where the executor
  succeeds on every target of \<open>pre\<close> (with the outputs \<open>outs\<close>) and fails on \<open>t\<close> with the
  error \<open>err\<close>: the group returns the error that names \<open>t\<close> and \<open>err\<close>; the commands started
  are those of \<open>pre\<close> and of \<open>t\<close>, in this order, and none of \<open>post\<close>; and the group's file
  holds the outputs of \<open>pre\<close>, each followed by a newline.
\<close>

theorem targeted_group_fails_fast:
  assumes "create_err h (filepath_Join (OutputDir pg) outputFile) = None"
      and "map (\<lambda>p. run_cmd h (plan_argv p)) pre = map Inr outs"
      and "run_cmd h (plan_argv t) = Inl err"
  shows "runTargetedPlanGroup h pg (pre @ t # post) outputFile w =
           (Some (''failed to run plan for '' @ t @ '': '' @ err),
            \<lparr>files = (files w)(filepath_Join (OutputDir pg) outputFile \<mapsto>
                        concat (map (\<lambda>out. out @ [newline]) outs)),
             calls = calls w @ map plan_argv pre @ [plan_argv t]\<rparr>)"
proof -
  let ?path = "filepath_Join (OutputDir pg) outputFile"
  let ?w0 = "\<lparr>files = (files w)(?path \<mapsto> []), calls = calls w\<rparr>"
  have "files ?w0 ?path = Some []" by simp
  from plan_loop_first_failure[OF assms(3) assms(2) this, of post]
  show ?thesis
    by (simp add: runTargetedPlanGroup_def assms(1) world_updates)
qed

theorem targeted_group_fails_fast_witness:
  "runTargetedPlanGroup (example_host run_b_fails) example_pg [''a'', ''b'', ''c'']
     ''commercial-plans.txt'' empty_world =
   (Some ''failed to run plan for b: exit status 1'',
    \<lparr>files = [''out/commercial-plans.txt'' \<mapsto>
                ''ran kitman tg plan --wd a --local --pr'' @ [newline, newline]],
     calls = [plan_argv ''a'', plan_argv ''b'']\<rparr>)"
  using targeted_group_fails_fast
    [of "example_host run_b_fails" example_pg "''commercial-plans.txt''" "[''a'']"
        "[''ran kitman tg plan --wd a --local --pr'' @ [newline]]" "''b''"
        "''exit status 1''" "[''c'']" empty_world]
  by (simp add: example_host_def example_pg_def empty_world_def run_b_fails_def run_echo_def
      plan_argv_def filepath_Join_def)

text \<open>
  Claim C9, as the code has it. When the executor succeeds on every target of the group,
  with the outputs \<open>outs\<close> in the order of the targets, the group's file holds every
  output followed by one newline character, the last output too; one command was started
  for each target, in the order of the targets.
\<close>

theorem targeted_group_buffer:
  assumes "create_err h (filepath_Join (OutputDir pg) outputFile) = None"
      and "map (\<lambda>p. run_cmd h (plan_argv p)) plans = map Inr outs"
  shows "runTargetedPlanGroup h pg plans outputFile w =
           (None,
            \<lparr>files = (files w)(filepath_Join (OutputDir pg) outputFile \<mapsto>
                        concat (map (\<lambda>out. out @ [newline]) outs)),
             calls = calls w @ map plan_argv plans\<rparr>)"
proof -
  let ?path = "filepath_Join (OutputDir pg) outputFile"
  let ?w0 = "\<lparr>files = (files w)(?path \<mapsto> []), calls = calls w\<rparr>"
  have "files ?w0 ?path = Some []" by simp
  from plan_loop_all_ok[OF assms(2) this]
  show ?thesis
    by (simp add: runTargetedPlanGroup_def assms(1) world_updates)
qed

theorem targeted_group_buffer_witness:
  "runTargetedPlanGroup (example_host run_echo) example_pg [''a'', ''b'']
     ''commercial-plans.txt'' empty_world =
   (None,
    \<lparr>files = [''out/commercial-plans.txt'' \<mapsto>
                ''ran kitman tg plan --wd a --local --pr'' @ [newline, newline] @
                ''ran kitman tg plan --wd b --local --pr'' @ [newline, newline]],
     calls = [plan_argv ''a'', plan_argv ''b'']\<rparr>)"
  using targeted_group_buffer
    [of "example_host run_echo" example_pg "''commercial-plans.txt''" "[''a'', ''b'']"
        "[''ran kitman tg plan --wd a --local --pr'' @ [newline],
          ''ran kitman tg plan --wd b --local --pr'' @ [newline]]" empty_world]
  by (simp add: example_host_def example_pg_def empty_world_def run_echo_def
      plan_argv_def filepath_Join_def)

text \<open>
  Claim C9 as the specification states it fails: with two targets whose outputs are
  \<open>o\<^sub>1\<close> and \<open>o\<^sub>2\<close>, the file is not \<open>o\<^sub>1\<close>, a newline, \<open>o\<^sub>2\<close>; a further newline follows the
  last output.
\<close>

theorem targeted_group_buffer_counterexample:
  "files (snd (runTargetedPlanGroup (example_host run_echo) example_pg [''a'', ''b'']
                 ''commercial-plans.txt'' empty_world)) ''out/commercial-plans.txt''
     = Some (strings_Join [''ran kitman tg plan --wd a --local --pr'' @ [newline],
                           ''ran kitman tg plan --wd b --local --pr'' @ [newline]] [newline]
             @ [newline]) \<and>
   files (snd (runTargetedPlanGroup (example_host run_echo) example_pg [''a'', ''b'']
                 ''commercial-plans.txt'' empty_world)) ''out/commercial-plans.txt''
     \<noteq> Some (strings_Join [''ran kitman tg plan --wd a --local --pr'' @ [newline],
                            ''ran kitman tg plan --wd b --local --pr'' @ [newline]] [newline])"
  by (simp add: runTargetedPlanGroup_def cmd_Output_def example_host_def example_pg_def
      empty_world_def run_echo_def plan_argv_def filepath_Join_def)

section \<open>The two groups together\<close>










text \<open>
  Claim C2, as the code has it. When both groups fail, the commercial group with the
  error \<open>c\<^sub>1\<close> and the govcloud group with the error \<open>c\<^sub>2\<close>, both runPlanAll and
  runTargetedPlans return the error \<open>commercial plans failed: c\<^sub>1\<close>; \<open>c\<^sub>2\<close> is not part of it.
\<close>

theorem both_fail_reports_commercial_only:
  "(runCommand h ''kitman'' (commercial_args pg)
      (filepath_Join (OutputDir pg) ''commercial-plans.txt'') w = (Some c1, w1) \<longrightarrow>
    runCommand h ''kitman'' (govcloud_args pg)
      (filepath_Join (OutputDir pg) ''govcloud-plans.txt'') w1 = (Some c2, w2) \<longrightarrow>
    runPlanAll h pg w = (Some (''commercial plans failed: '' @ c1), w2)) \<and>
   (partition_plans affectedPlans ([], []) = (commercialPlans, govcloudPlans) \<longrightarrow>
    commercialPlans \<noteq> [] \<longrightarrow> govcloudPlans \<noteq> [] \<longrightarrow>
    runTargetedPlanGroup h pg commercialPlans ''commercial-plans.txt'' w = (Some e1, v1) \<longrightarrow>
    runTargetedPlanGroup h pg govcloudPlans ''govcloud-plans.txt'' v1 = (Some e2, v2) \<longrightarrow>
    runTargetedPlans h pg affectedPlans w = (Some (''commercial plans failed: '' @ e1), v2))"
  by (simp add: runPlanAll_def runTargetedPlans_def join_errors_def)

theorem both_fail_reports_commercial_only_witness:
  "runPlanAll (example_host run_both_fail) example_pg empty_world =
     (Some (''commercial plans failed: '' @
            ''command failed: kitman [tg plan_all -m s3 --local --pr] - exit status 1''),
      \<lparr>files = Map.empty,
       calls = [''kitman'' # commercial_args example_pg, ''kitman'' # govcloud_args example_pg]\<rparr>) \<and>
   runTargetedPlans (example_host run_both_fail) example_pg [''x/govcloud-b'', ''x/a''] empty_world =
     (Some (''commercial plans failed: '' @ ''failed to run plan for x/a: exit status 1''),
      \<lparr>files = [''out/commercial-plans.txt'' \<mapsto> [], ''out/govcloud-plans.txt'' \<mapsto> []],
       calls = [plan_argv ''x/a'', plan_argv ''x/govcloud-b'']\<rparr>)"
proof -
  let ?h = "example_host run_both_fail"
  let ?w1 = "\<lparr>files = Map.empty, calls = [''kitman'' # commercial_args example_pg]\<rparr>"
  let ?w2 = "\<lparr>files = Map.empty,
              calls = [''kitman'' # commercial_args example_pg, ''kitman'' # govcloud_args example_pg]\<rparr>"
  let ?v1 = "\<lparr>files = [''out/commercial-plans.txt'' \<mapsto> []], calls = [plan_argv ''x/a'']\<rparr>"
  let ?v2 = "\<lparr>files = [''out/commercial-plans.txt'' \<mapsto> [], ''out/govcloud-plans.txt'' \<mapsto> []],
              calls = [plan_argv ''x/a'', plan_argv ''x/govcloud-b'']\<rparr>"
  have a: "runCommand ?h ''kitman'' (commercial_args example_pg)
             (filepath_Join (OutputDir example_pg) ''commercial-plans.txt'') empty_world =
           (Some ''command failed: kitman [tg plan_all -m s3 --local --pr] - exit status 1'', ?w1)"
    by (simp add: runCommand_def cmd_Output_def example_host_def run_both_fail_def
        commercial_args_def example_pg_def empty_world_def fmt_strings_def world_updates)
  have b: "runCommand ?h ''kitman'' (govcloud_args example_pg)
             (filepath_Join (OutputDir example_pg) ''govcloud-plans.txt'') ?w1 =
           (Some (''command failed: kitman [tg plan_all -m s3 --organizations '' @
                  ''govcloud-staging|govcloud-production --regions us-gov-west-1 --local --pr]'' @
                  '' - exit status 2''), ?w2)"
    by (simp add: runCommand_def cmd_Output_def example_host_def run_both_fail_def
        govcloud_args_def commercial_args_def example_pg_def fmt_strings_def world_updates)
  have c: "partition_plans [''x/govcloud-b'', ''x/a''] ([], []) = ([''x/a''], [''x/govcloud-b''])"
    by simp
  have d: "runTargetedPlanGroup ?h example_pg [''x/a''] ''commercial-plans.txt'' empty_world =
           (Some ''failed to run plan for x/a: exit status 1'', ?v1)"
    by (simp add: runTargetedPlanGroup_def cmd_Output_def example_host_def run_both_fail_def
        example_pg_def empty_world_def plan_argv_def filepath_Join_def world_updates)
  have e: "runTargetedPlanGroup ?h example_pg [''x/govcloud-b''] ''govcloud-plans.txt'' ?v1 =
           (Some ''failed to run plan for x/govcloud-b: exit status 2'', ?v2)"
    by (simp add: runTargetedPlanGroup_def cmd_Output_def example_host_def run_both_fail_def
        example_pg_def plan_argv_def filepath_Join_def world_updates)
  from both_fail_reports_commercial_only
    [where h = ?h and pg = example_pg and w = empty_world and ?w1.0 = ?w1 and ?w2.0 = ?w2
       and affectedPlans = "[''x/govcloud-b'', ''x/a'']" and commercialPlans = "[''x/a'']"
       and govcloudPlans = "[''x/govcloud-b'']" and ?v1.0 = ?v1 and ?v2.0 = ?v2]
    a b c d e
  show ?thesis by simp
qed

text \<open>
  Claim C2 as the specification states it fails: both groups fail, with the exit
  statuses 1 and 2, and the error returned does not contain the cause of the govcloud
  group.
\<close>

theorem both_fail_counterexample:
  "fst (runPlanAll (example_host run_both_fail) example_pg empty_world) =
     Some ''commercial plans failed: command failed: kitman [tg plan_all -m s3 --local --pr] - exit status 1'' \<and>
   \<not> strings_Contains
       ''commercial plans failed: command failed: kitman [tg plan_all -m s3 --local --pr] - exit status 1''
       ''exit status 2'' \<and>
   fst (runTargetedPlans (example_host run_both_fail) example_pg [''x/govcloud-b'', ''x/a'']
          empty_world) =
     Some ''commercial plans failed: failed to run plan for x/a: exit status 1'' \<and>
   \<not> strings_Contains ''commercial plans failed: failed to run plan for x/a: exit status 1''
       ''exit status 2''"
  by (simp add: runPlanAll_def runTargetedPlans_def runTargetedPlanGroup_def runCommand_def
      cmd_Output_def join_errors_def example_host_def run_both_fail_def govcloud_args_def
      commercial_args_def example_pg_def empty_world_def fmt_strings_def plan_argv_def
      filepath_Join_def)

section \<open>The scanning loop\<close>

lemmas eval_scan =
  scan_lines_def scan_line_def scan_markers_def scanner_init_def envRegex_def regionRegex_def
  org_at_def region_at_def govcloud_at_def gov_region_at_def re_lit_def re_plus_def
  not_slash_def is_lower_def is_digit_def header_phrase_def is_plan_summary_def store_block_def
  plan_summary_line_def

lemma scan_markers_keeps [simp]:
  "planLines (scan_markers g st line) = planLines st"
  "inPlanSection (scan_markers g st line) = inPlanSection st"
  "envs (scan_markers g st line) = envs st"
  by (simp_all add: scan_markers_def split: option.splits)

lemma scan_line_header:
  "strings_Contains line header_phrase \<Longrightarrow>
   scan_line g st line = (scan_markers g st line)\<lparr>inPlanSection := True, planLines := [line]\<rparr>"
  by (simp add: scan_line_def)

lemma scan_line_inside:
  "\<not> strings_Contains line header_phrase \<Longrightarrow> inPlanSection st \<Longrightarrow>
   \<not> is_plan_summary line \<Longrightarrow>
   scan_line g st line = (scan_markers g st line)\<lparr>planLines := planLines st @ [line]\<rparr>"
  by (simp add: scan_line_def)

lemma scan_line_close:
  "\<not> strings_Contains line header_phrase \<Longrightarrow> inPlanSection st \<Longrightarrow> is_plan_summary line \<Longrightarrow>
   scan_line g st line =
     (scan_markers g st line)
       \<lparr>planLines := [], inPlanSection := False,
        envs := (if currentEnv (scan_markers g st line) \<noteq> [] \<and>
                    currentRegion (scan_markers g st line) \<noteq> []
                 then store_block (envs st) (currentEnv (scan_markers g st line))
                        (currentRegion (scan_markers g st line))
                        (strings_Join (planLines st @ [line]) [newline])
                 else envs st)\<rparr>"
  by (simp add: scan_line_def Let_def)

lemma scan_body_lines:
  "\<forall>l \<in> set body. \<not> strings_Contains l header_phrase \<and> \<not> is_plan_summary l \<Longrightarrow>
   inPlanSection st \<Longrightarrow>
   inPlanSection (foldl (scan_line g) st body) \<and>
   planLines (foldl (scan_line g) st body) = planLines st @ body \<and>
   envs (foldl (scan_line g) st body) = envs st"
proof (induction body arbitrary: st)
  case Nil
  then show ?case by simp
next
  case (Cons l ls)
  have l: "\<not> strings_Contains l header_phrase" "\<not> is_plan_summary l"
    using Cons.prems(1) by simp_all
  have step: "scan_line g st l = (scan_markers g st l)\<lparr>planLines := planLines st @ [l]\<rparr>"
    using scan_line_inside[OF l(1) Cons.prems(2) l(2)] .
  have "inPlanSection (scan_line g st l)" by (simp add: step Cons.prems(2))
  moreover have "\<forall>l \<in> set ls. \<not> strings_Contains l header_phrase \<and> \<not> is_plan_summary l"
    using Cons.prems(1) by simp
  ultimately have
    "inPlanSection (foldl (scan_line g) (scan_line g st l) ls) \<and>
     planLines (foldl (scan_line g) (scan_line g st l) ls) = planLines (scan_line g st l) @ ls \<and>
     envs (foldl (scan_line g) (scan_line g st l) ls) = envs (scan_line g st l)"
    using Cons.IH by blast
  then show ?case by (simp add: step)
qed

text \<open>
  Claim C3, as the code has it. A line that contains the header phrase restarts the
  buffer whatever \<open>inPlanSection\<close> is: after it \<open>planLines\<close> holds this line alone, so the
  lines collected before it are gone. When lines without the header phrase and without a
  plan summary follow, and then a line with a plan summary, the block stored at that line
  is made of the header line, those lines and the closing line, and of nothing that came
  before the header line.
\<close>

theorem header_restarts_block:
  assumes "strings_Contains l0 header_phrase"
      and "\<forall>l \<in> set body. \<not> strings_Contains l header_phrase \<and> \<not> is_plan_summary l"
      and "\<not> strings_Contains c header_phrase"
      and "is_plan_summary c"
  shows "planLines (scan_line g st l0) = [l0] \<and>
         inPlanSection (scan_line g st l0) \<and>
         envs (scan_line g st l0) = envs st \<and>
         envs (foldl (scan_line g) st (l0 # body @ [c])) =
           (if currentEnv (foldl (scan_line g) st (l0 # body @ [c])) \<noteq> [] \<and>
               currentRegion (foldl (scan_line g) st (l0 # body @ [c])) \<noteq> []
            then store_block (envs st)
                   (currentEnv (foldl (scan_line g) st (l0 # body @ [c])))
                   (currentRegion (foldl (scan_line g) st (l0 # body @ [c])))
                   (strings_Join (l0 # body @ [c]) [newline])
            else envs st)"
proof -
  let ?s1 = "scan_line g st l0"
  let ?s2 = "foldl (scan_line g) ?s1 body"
  have s1: "planLines ?s1 = [l0]" "inPlanSection ?s1" "envs ?s1 = envs st"
    by (simp_all add: scan_line_header[OF assms(1)])
  have s2: "inPlanSection ?s2" "planLines ?s2 = l0 # body" "envs ?s2 = envs st"
    using scan_body_lines[OF assms(2) s1(2), of g] s1 by simp_all
  have s3: "foldl (scan_line g) st (l0 # body @ [c]) = scan_line g ?s2 c" by simp
  show ?thesis
    unfolding s3
    by (simp add: s1 scan_line_close[OF assms(3) s2(1) assms(4)] s2 del: foldl_Cons foldl_append)
qed

theorem header_restarts_block_witness:
  "envs (foldl (scan_line False) inside_state [header_phrase, ''  + second'', plan_summary_line]) =
     [(''staging'',
       \<lparr>Name = ''staging'', Regions = [''eu-west-1''],
        Plans = [(''eu-west-1'',
                  strings_Join [header_phrase, ''  + second'', plan_summary_line] [newline])]\<rparr>)]"
  using header_restarts_block
    [of header_phrase "[''  + second'']" plan_summary_line False inside_state]
  by (simp add: eval_scan inside_state_def)

text \<open>
  Claim C3 as the specification states it fails: a second header line inside a block
  resets the buffer to itself, and the block stored at the closing line does not hold
  the line \<open>+ first\<close> of the first block.
\<close>

theorem header_restarts_block_counterexample:
  "planLines (foldl (scan_line False) scanner_init (take 3 nested_header_lines)) =
     [header_phrase, ''  + first''] \<and>
   planLines (foldl (scan_line False) scanner_init (take 4 nested_header_lines)) =
     [header_phrase] \<and>
   envs (scan_lines False nested_header_lines) =
     [(''staging'',
       \<lparr>Name = ''staging'', Regions = [''eu-west-1''],
        Plans = [(''eu-west-1'',
                  strings_Join [header_phrase, ''  + second'', plan_summary_line] [newline])]\<rparr>)] \<and>
   \<not> strings_Contains
        (strings_Join [header_phrase, ''  + second'', plan_summary_line] [newline])
        ''  + first''"
  by (simp add: eval_scan nested_header_lines_def)

text \<open>
  Claim C4, as the code has it. For a line without the header phrase that is read while
  \<open>inPlanSection\<close> holds: the section ends exactly when the line has a plan summary
  (\<open>Plan:\<close> and one of \<open>to add\<close>, \<open>to change\<close>, \<open>to destroy\<close>). When it ends, the block (the
  collected lines and this line, joined by newlines) is stored iff both markers are
  non-empty and is dropped otherwise, \<open>inPlanSection\<close> is false and \<open>planLines\<close> is empty
  afterwards. When it does not end, the line is appended. In both cases the markers keep
  the values the marker tests of this line gave them.
\<close>

theorem block_close:
  assumes "inPlanSection st"
      and "\<not> strings_Contains line header_phrase"
  shows "(is_plan_summary line \<longrightarrow>
            \<not> inPlanSection (scan_line g st line) \<and>
            planLines (scan_line g st line) = [] \<and>
            envs (scan_line g st line) =
              (if currentEnv (scan_markers g st line) \<noteq> [] \<and>
                  currentRegion (scan_markers g st line) \<noteq> []
               then store_block (envs st) (currentEnv (scan_markers g st line))
                      (currentRegion (scan_markers g st line))
                      (strings_Join (planLines st @ [line]) [newline])
               else envs st)) \<and>
         (\<not> is_plan_summary line \<longrightarrow>
            inPlanSection (scan_line g st line) \<and>
            planLines (scan_line g st line) = planLines st @ [line] \<and>
            envs (scan_line g st line) = envs st) \<and>
         currentEnv (scan_line g st line) = currentEnv (scan_markers g st line) \<and>
         currentRegion (scan_line g st line) = currentRegion (scan_markers g st line)"
proof (cases "is_plan_summary line")
  case True
  show ?thesis
    by (simp add: True scan_line_close[OF assms(2) assms(1) True])
next
  case False
  show ?thesis
    by (simp add: False scan_line_inside[OF assms(2) assms(1) False] assms(1))
qed

theorem block_close_witness:
  "\<not> inPlanSection (scan_line False inside_state plan_summary_line) \<and>
   planLines (scan_line False inside_state plan_summary_line) = [] \<and>
   envs (scan_line False inside_state plan_summary_line) =
     store_block [] ''staging'' ''eu-west-1''
       (strings_Join [header_phrase, ''  + first'', plan_summary_line] [newline]) \<and>
   currentEnv (scan_line False inside_state plan_summary_line) = ''staging'' \<and>
   currentRegion (scan_line False inside_state plan_summary_line) = ''eu-west-1'' \<and>
   inPlanSection (scan_line False inside_state ''  + second'') \<and>
   planLines (scan_line False inside_state ''  + second'') =
     [header_phrase, ''  + first'', ''  + second''] \<and>
   envs (scan_line False inside_state ''  + second'') = []"
  using block_close[of inside_state plan_summary_line False]
        block_close[of inside_state "''  + second''" False]
  by (simp add: eval_scan inside_state_def)

text \<open>
  Claim C4 as the specification states it fails: inside a block, a line that holds the
  header phrase and a plan summary does not end the section; it restarts the buffer, and
  nothing is stored.
\<close>

theorem block_close_counterexample:
  "inPlanSection inside_state \<and>
   is_plan_summary (header_phrase @ '' Plan: 1 to add'') \<and>
   inPlanSection (scan_line False inside_state (header_phrase @ '' Plan: 1 to add'')) \<and>
   planLines (scan_line False inside_state (header_phrase @ '' Plan: 1 to add'')) =
     [header_phrase @ '' Plan: 1 to add''] \<and>
   envs (scan_line False inside_state (header_phrase @ '' Plan: 1 to add'')) = []"
  by (simp add: eval_scan inside_state_def)

section \<open>The placeholder of an empty group\<close>

text \<open>
  Claim C10. When the content of a group's file holds \<open>No commercial plans needed\<close> or
  \<open>No GovCloud plans needed\<close> at any position, whatever the group and whatever else the
  file holds, processPlansFile returns without scanning the file: the report is left as
  it was.
\<close>

theorem sentinel_anywhere_skips_file:
  assumes "fs (filepath_Join (OutputDir pg) filename) = Some content"
      and "content = a @ commercial_sentinel @ b \<or> content = a @ govcloud_sentinel @ b"
  shows "processPlansFile range_order pg fs filename isGovcloud output = output"
proof -
  have "strings_Contains content commercial_sentinel \<or>
        strings_Contains content govcloud_sentinel"
    using assms(2) unfolding strings_Contains_iff by blast
  then show ?thesis
    by (auto simp: processPlansFile_def assms(1))
qed

theorem sentinel_anywhere_skips_file_witness:
  "processPlansFile id example_pg [''out/commercial-plans.txt'' \<mapsto> sentinel_in_plan]
     ''commercial-plans.txt'' False ''**Terraform plan**'' = ''**Terraform plan**''"
  using sentinel_anywhere_skips_file
    [of "[''out/commercial-plans.txt'' \<mapsto> sentinel_in_plan]" example_pg
        "''commercial-plans.txt''" sentinel_in_plan
        "''/aws/organizations/staging/eu-west-1/s3'' @ [newline] @ header_phrase @ [newline] @
         ''  + note = ''"
        "[newline] @ plan_summary_line @ [newline]" id False "''**Terraform plan**''"]
  by (simp add: example_pg_def filepath_Join_def sentinel_in_plan_def govcloud_sentinel_def)

section \<open>The grouping\<close>

lemma contains_iff [simp]: "contains slice item \<longleftrightarrow> item \<in> set slice"
  by (induction slice) auto

lemma map_of_store_block:
  "map_of (store_block es e r c) k =
     (if k = e
      then Some (let env0 = (case map_of es e of
                               None \<Rightarrow> \<lparr>Name = e, Regions = [], Plans = []\<rparr>
                             | Some env \<Rightarrow> env)
                 in env0\<lparr>Regions := (if r \<in> set (Regions env0) then Regions env0
                                        else Regions env0 @ [r]),
                         Plans := AList.update r c (Plans env0)\<rparr>)
      else map_of es k)"
  by (simp add: store_block_def Let_def AList.update_conv')

lemma keys_store_block: "fst ` set (store_block es e r c) = insert e (fst ` set es)"
  by (simp add: store_block_def Let_def AList.dom_update)

lemma plan_of_store_block:
  "plan_of (store_block es e r c) e' r' =
     (if e' = e \<and> r' = r then Some c else plan_of es e' r')"
  by (auto simp: plan_of_def map_of_store_block Let_def AList.update_conv' split: option.splits)

lemma regions_of_store_block:
  "set (regions_of (store_block es e r c) e') =
     (if e' = e then insert r (set (regions_of es e)) else set (regions_of es e'))"
  by (auto simp: regions_of_def map_of_store_block Let_def split: option.splits)

lemma wf_envs_store_block:
  assumes "wf_envs es"
  shows "wf_envs (store_block es e r c)"
proof -
  have d: "distinct (map fst es)"
    and n: "\<And>k env. map_of es k = Some env \<Longrightarrow>
              Name env = k \<and> distinct (Regions env) \<and> distinct (map fst (Plans env))"
    using assms by (auto simp: wf_envs_def)
  have "distinct (map fst (store_block es e r c))"
    using d by (simp add: store_block_def Let_def AList.distinct_update)
  moreover have "Name env = k \<and> distinct (Regions env) \<and> distinct (map fst (Plans env))"
    if m: "map_of (store_block es e r c) k = Some env" for k env
  proof (cases "k = e")
    case True
    show ?thesis
    proof (cases "map_of es e")
      case None
      then show ?thesis
        using m True by (auto simp: map_of_store_block Let_def AList.distinct_update)
    next
      case (Some env0)
      then show ?thesis
        using m True n[OF Some] by (auto simp: map_of_store_block Let_def AList.distinct_update)
    qed
  next
    case False
    then show ?thesis using m n by (simp add: map_of_store_block)
  qed
  ultimately show ?thesis
    unfolding wf_envs_def by blast
qed

lemma wf_envs_Nil: "wf_envs []"
  by (simp add: wf_envs_def)

lemma store_all_Nil [simp]: "store_all es [] = es"
  by (simp add: store_all_def)

lemma store_all_Cons [simp]:
  "store_all es ((e, r, c) # recs) = store_all (store_block es e r c) recs"
  by (simp add: store_all_def)

lemma wf_envs_store_all: "wf_envs es \<Longrightarrow> wf_envs (store_all es recs)"
  by (induction recs arbitrary: es) (auto simp: wf_envs_store_block)

lemma keys_store_all:
  "fst ` set (store_all es recs) = fst ` set es \<union> fst ` set recs"
proof (induction recs arbitrary: es)
  case Nil
  then show ?case by simp
next
  case (Cons x recs)
  obtain e r c where x: "x = (e, r, c)" by (cases x)
  have "fst ` set (store_all es (x # recs)) =
        insert e (fst ` set es) \<union> fst ` set recs"
    by (simp add: x Cons.IH keys_store_block)
  then show ?case by (simp add: x)
qed

lemma plan_of_store_all:
  "plan_of (store_all es recs) e r =
     (case last_block recs e r of Some c \<Rightarrow> Some c | None \<Rightarrow> plan_of es e r)"
  by (induction recs arbitrary: es) (auto simp: plan_of_store_block split: option.splits)

lemma regions_of_store_all:
  "set (regions_of (store_all es recs) e) =
     set (regions_of es e) \<union> {r. \<exists>c. (e, r, c) \<in> set recs}"
proof (induction recs arbitrary: es)
  case Nil
  then show ?case by simp
next
  case (Cons x recs)
  obtain e0 r0 c0 where x: "x = (e0, r0, c0)" by (cases x)
  have "set (regions_of (store_all es (x # recs)) e) =
        set (regions_of (store_block es e0 r0 c0) e) \<union> {r. \<exists>c. (e, r, c) \<in> set recs}"
    by (simp add: x Cons.IH)
  also have "\<dots> = set (regions_of es e) \<union> {r. \<exists>c. (e, r, c) \<in> set (x # recs)}"
    by (auto simp: regions_of_store_block x)
  finally show ?case .
qed

lemma plan_of_Nil [simp]: "plan_of [] e r = None"
  by (simp add: plan_of_def)

lemma regions_of_Nil [simp]: "regions_of [] e = []"
  by (simp add: regions_of_def)

lemma last_block_append:
  "last_block (xs @ ys) e r =
     (case last_block ys e r of Some c \<Rightarrow> Some c | None \<Rightarrow> last_block xs e r)"
  by (induction xs) (auto split: option.splits)

lemma envs_scan_line:
  "envs (scan_line g st line) = store_all (envs st) (emitted_records g st [line])"
  by (simp add: scan_line_def Let_def)

lemma emitted_records_step:
  "emitted_records g st (line # ls) =
     emitted_records g st [line] @ emitted_records g (scan_line g st line) ls"
  by simp

lemma store_all_append: "store_all es (xs @ ys) = store_all (store_all es xs) ys"
  by (simp add: store_all_def)

lemma envs_scan:
  "envs (foldl (scan_line g) st ls) = store_all (envs st) (emitted_records g st ls)"
proof (induction ls arbitrary: st)
  case Nil
  then show ?case by simp
next
  case (Cons l ls)
  have "envs (foldl (scan_line g) st (l # ls)) =
        store_all (envs (scan_line g st l)) (emitted_records g (scan_line g st l) ls)"
    using Cons.IH by simp
  also have "\<dots> = store_all (envs st)
                     (emitted_records g st [l] @ emitted_records g (scan_line g st l) ls)"
    by (simp only: envs_scan_line store_all_append)
  finally show ?case by (simp only: emitted_records_step[symmetric])
qed

lemma last_block_filter:
  "last_block recs e r =
     (case filter (\<lambda>(e', r', content). e' = e \<and> r' = r) recs of
        [] \<Rightarrow> None
      | m # ms \<Rightarrow> Some (snd (snd (last (m # ms)))))"
  by (induction recs) (auto split: list.splits option.splits if_splits)

lemma sort_range_order: "is_range_order ro \<Longrightarrow> sort (ro ks) = sort ks"
  by (rule properties_for_sort) (simp_all add: is_range_order_def)

lemma sort_distinct: "distinct ks \<Longrightarrow> sort ks = sorted_list_of_set (set ks)"
  by (simp add: sorted_list_of_set_sort_remdups distinct_remdups_id)

lemma envNames_sorted:
  "is_range_order ro \<Longrightarrow> wf_envs es \<Longrightarrow> envNames ro es = sorted_list_of_set (fst ` set es)"
  by (simp add: envNames_def sort_range_order sort_distinct wf_envs_def)

lemma range_keys_present:
  assumes "is_range_order ro" and "k \<in> set (envNames ro es)"
  shows "\<exists>env. map_of es k = Some env"
proof -
  have "set (envNames ro es) = set (map fst es)"
    using assms(1) by (simp add: envNames_def sort_range_order)
  then have "k \<in> fst ` set es" using assms(2) by simp
  then show ?thesis
    by (metis domD dom_map_of_conv_image_fst)
qed

lemma render_env_abs:
  assumes "wf_envs es" and "map_of es k = Some env"
  shows "render_env m env =
           env_header k m @
           concat (map (\<lambda>region. case plan_of es k region of
                                    Some planContent \<Rightarrow>
                                      if planContent \<noteq> [] then region_block region planContent
                                      else []
                                  | None \<Rightarrow> [])
                       (sorted_list_of_set (set (regions_of es k))))"
proof -
  have n: "Name env = k" and d: "distinct (Regions env)"
    using assms by (auto simp: wf_envs_def)
  have r: "regions_of es k = Regions env" by (simp add: regions_of_def assms(2))
  have p: "plan_of es k = map_of (Plans env)" by (simp add: plan_of_def assms(2) fun_eq_iff)
  show ?thesis
    by (simp add: render_env_def n r p sort_distinct[OF d] render_region_def[abs_def])
qed

lemma render_report_abs:
  assumes "is_range_order ro" and "wf_envs es"
  shows "render_report ro m es =
           report_of m (fst ` set es) (\<lambda>k. set (regions_of es k)) (plan_of es)"
proof -
  have "(case map_of es k of Some env \<Rightarrow> render_env m env | None \<Rightarrow> []) =
        env_header k m @
        concat (map (\<lambda>region. case plan_of es k region of
                                 Some planContent \<Rightarrow>
                                   if planContent \<noteq> [] then region_block region planContent
                                   else []
                               | None \<Rightarrow> [])
                    (sorted_list_of_set (set (regions_of es k))))"
    if kin: "k \<in> set (envNames ro es)" for k
  proof -
    obtain env where e: "map_of es k = Some env"
      using range_keys_present[OF assms(1) kin] by blast
    show ?thesis by (simp add: e render_env_abs[OF assms(2) e])
  qed
  then have "map (\<lambda>k. case map_of es k of Some env \<Rightarrow> render_env m env | None \<Rightarrow> [])
               (envNames ro es) =
             map (\<lambda>k. env_header k m @
                    concat (map (\<lambda>region. case plan_of es k region of
                                 Some planContent \<Rightarrow>
                                   if planContent \<noteq> [] then region_block region planContent
                                   else []
                               | None \<Rightarrow> [])
                    (sorted_list_of_set (set (regions_of es k)))))
               (envNames ro es)"
    by (intro map_cong refl)
  then show ?thesis
    by (simp only: render_report_def report_of_def) (simp only: envNames_sorted[OF assms])
qed

lemma render_report_records:
  assumes "is_range_order ro"
  shows "render_report ro m (store_all [] recs) =
           report_of m (fst ` set recs) (\<lambda>k. {r. \<exists>c. (k, r, c) \<in> set recs}) (last_block recs)"
proof -
  have wf: "wf_envs (store_all [] recs)"
    by (rule wf_envs_store_all[OF wf_envs_Nil])
  have p: "plan_of (store_all [] recs) = last_block recs"
    by (auto simp: fun_eq_iff plan_of_store_all split: option.splits)
  show ?thesis
    unfolding render_report_abs[OF assms wf]
    by (simp add: keys_store_all regions_of_store_all p)
qed

lemma envs_scan_lines:
  "envs (scan_lines g ls) = store_all [] (emitted_records g scanner_init ls)"
  by (simp add: scan_lines_def envs_scan) (simp add: scanner_init_def)

lemma last_block_overwritten:
  "last_block (xs @ (e, r, c1) # ys @ (e, r, c2) # zs) =
   last_block (xs @ ys @ (e, r, c2) # zs)"
proof (intro ext)
  fix e' r'
  have z: "last_block ((e, r, c2) # zs) e r \<noteq> None"
    by (auto split: option.splits)
  have a: "last_block (ys @ (e, r, c2) # zs) e r \<noteq> None"
    using z by (simp add: last_block_append split: option.splits)
  have b: "last_block ((e, r, c1) # ys @ (e, r, c2) # zs) e' r' =
           last_block (ys @ (e, r, c2) # zs) e' r'"
    using a by (cases "e' = e \<and> r' = r") (auto split: option.splits)
  have "last_block (xs @ ((e, r, c1) # ys @ (e, r, c2) # zs)) e' r' =
        (case last_block ((e, r, c1) # ys @ (e, r, c2) # zs) e' r' of
           Some c \<Rightarrow> Some c | None \<Rightarrow> last_block xs e' r')"
    by (rule last_block_append)
  also have "\<dots> = (case last_block (ys @ (e, r, c2) # zs) e' r' of
                      Some c \<Rightarrow> Some c | None \<Rightarrow> last_block xs e' r')"
    by (simp only: b)
  also have "\<dots> = last_block (xs @ (ys @ (e, r, c2) # zs)) e' r'"
    by (rule last_block_append[symmetric])
  finally show "last_block (xs @ (e, r, c1) # ys @ (e, r, c2) # zs) e' r' =
        last_block (xs @ ys @ (e, r, c2) # zs) e' r'"
    by simp
qed

text \<open>
  Claim C6. For every sequence of records, the grouping holds for an environment and a
  region the block of the last record with this environment and region, and holds it once:
  no name, no region and no plan key is there twice. When a record is followed by a
  later record with the same environment and region, the report is the report of the
  sequence without the earlier record, so that of the two blocks it holds the later one
  only. The records are those the scanning loop stores.
\<close>

theorem last_write_wins:
  assumes "is_range_order range_order"
  shows "plan_of (store_all [] recs) e' r' = last_block recs e' r' \<and>
         distinct (map fst (store_all [] recs)) \<and>
         (map_of (store_all [] recs) e' = Some env \<longrightarrow>
            distinct (Regions env) \<and> distinct (map fst (Plans env))) \<and>
         plan_of (store_all [] (xs @ (e, r, c1) # ys @ (e, r, c2) # zs)) e r =
           (case last_block zs e r of Some c \<Rightarrow> Some c | None \<Rightarrow> Some c2) \<and>
         render_report range_order m (store_all [] (xs @ (e, r, c1) # ys @ (e, r, c2) # zs)) =
           render_report range_order m (store_all [] (xs @ ys @ (e, r, c2) # zs)) \<and>
         envs (scan_lines g ls) = store_all [] (emitted_records g scanner_init ls)"
proof -
  have wf: "wf_envs (store_all [] recs)"
    by (rule wf_envs_store_all[OF wf_envs_Nil])
  have p: "plan_of (store_all [] recs) e' r' = last_block recs e' r'" for recs
    by (simp add: plan_of_store_all split: option.splits)
  have l: "last_block (xs @ (e, r, c1) # ys @ (e, r, c2) # zs) e r =
           (case last_block zs e r of Some c \<Rightarrow> Some c | None \<Rightarrow> Some c2)"
    by (simp add: last_block_overwritten last_block_append[of xs] last_block_append[of ys]
        split: option.splits)
  have s: "fst ` set (xs @ (e, r, c1) # ys @ (e, r, c2) # zs) =
           fst ` set (xs @ ys @ (e, r, c2) # zs)"
    by auto
  have t: "(\<lambda>k. {r'. \<exists>c. (k, r', c) \<in> set (xs @ (e, r, c1) # ys @ (e, r, c2) # zs)}) =
           (\<lambda>k. {r'. \<exists>c. (k, r', c) \<in> set (xs @ ys @ (e, r, c2) # zs)})"
    by (auto simp: fun_eq_iff)
  have "plan_of (store_all [] (xs @ (e, r, c1) # ys @ (e, r, c2) # zs)) e r =
           (case last_block zs e r of Some c \<Rightarrow> Some c | None \<Rightarrow> Some c2)"
    using l by (simp add: plan_of_store_all split: option.splits)
  moreover have "render_report range_order m (store_all [] (xs @ (e, r, c1) # ys @ (e, r, c2) # zs)) =
           render_report range_order m (store_all [] (xs @ ys @ (e, r, c2) # zs))"
    unfolding render_report_records[OF assms] last_block_overwritten s t ..
  ultimately show ?thesis
    using wf p by (auto simp: wf_envs_def envs_scan_lines)
qed

theorem last_write_wins_witness:
  "plan_of (store_all [] [(''staging'', ''eu-west-1'', ''first''),
                          (''staging'', ''eu-west-1'', ''second'')])
     ''staging'' ''eu-west-1'' = Some ''second'' \<and>
   render_report id ''s3'' (store_all [] [(''staging'', ''eu-west-1'', ''first''),
                                           (''staging'', ''eu-west-1'', ''second'')]) =
     env_header ''staging'' ''s3'' @ region_block ''eu-west-1'' ''second''"
proof -
  have r: "is_range_order id"
    by (simp add: is_range_order_def)
  have e: "render_report id ''s3'' (store_all [] [(''staging'', ''eu-west-1'', ''second'')]) =
           env_header ''staging'' ''s3'' @ region_block ''eu-west-1'' ''second''"
    by (simp add: store_block_def render_report_def envNames_def render_env_def
        render_region_def)
  from last_write_wins[OF r, of "[(''staging'', ''eu-west-1'', ''first''),
                                   (''staging'', ''eu-west-1'', ''second'')]"
         "''staging''" "''eu-west-1''" _ "[]" "''staging''" "''eu-west-1''" "''first''" "[]"
         "''second''" "[]" "''s3''"] e
  show ?thesis
    by simp
qed

section \<open>The order of the report\<close>




end
